theory Spec2Isabelle
  imports Complex_Main
begin

section \<open>Numbers\<close>

text \<open>
  The client computes with Python floats. They are modelled as the real numbers: \<open>pi\<close> is
  the real constant, \<open>+\<close>, \<open>-\<close> and \<open>*\<close> are exact, and comparisons are those of the
  reals. Rounding, infinities and NaN are outside the model.

  \<open>math.fmod x y\<close> is the C remainder: \<open>x - n * y\<close> where \<open>n\<close> is \<open>x / y\<close> truncated towards
  zero, so the result carries the sign of \<open>x\<close>. Python raises ValueError for \<open>y = 0\<close>; both
  call sites of the client pass \<open>2 * pi\<close>.
\<close>

definition trunc :: "real \<Rightarrow> int" where
  "trunc r = (if 0 \<le> r then \<lfloor>r\<rfloor> else \<lceil>r\<rceil>)"

definition fmod :: "real \<Rightarrow> real \<Rightarrow> real" where
  "fmod x y = x - y * of_int (trunc (x / y))"

text \<open>
  \<open>math.atan2 y x\<close> on the reals: the angle in \<open>[-pi, pi]\<close> of the point \<open>(x, y)\<close>, and \<open>0\<close>
  at the origin.
\<close>

definition atan2 :: "real \<Rightarrow> real \<Rightarrow> real" where
  "atan2 y x =
     (if 0 < x then arctan (y / x)
      else if x < 0 then (if 0 \<le> y then arctan (y / x) + pi else arctan (y / x) - pi)
      else if 0 < y then pi / 2
      else if y < 0 then - (pi / 2)
      else 0)"

section \<open>bridge.py: constants and conversions\<close>

definition NUM_BOTS :: nat where
  "NUM_BOTS = 3"

definition LENGTH :: real where
  "LENGTH = 1.7 / 2.0"

definition WIDTH :: real where
  "WIDTH = 1.3 / 2.0"

text \<open>
  The conversions take whatever the vision client hands them. A number is \<open>Some r\<close>; \<open>None\<close>
  is Python's \<open>None\<close>, on which the arithmetic raises TypeError, caught by the functions'
  own \<open>except TypeError: return 0\<close>.
\<close>

definition convert_width :: "real option \<Rightarrow> real" where
  "convert_width w = (case w of Some r \<Rightarrow> (WIDTH + r) * 100 | None \<Rightarrow> 0)"

definition convert_length :: "real option \<Rightarrow> real" where
  "convert_length d = (case d of Some r \<Rightarrow> (LENGTH + r) * 100 | None \<Rightarrow> 0)"

definition convert_angle :: "real option \<Rightarrow> real" where
  "convert_angle a =
     (case a of
        Some r \<Rightarrow>
          (let angle = fmod r (2 * pi)
           in if angle < - pi then angle + 2 * pi
              else if angle > pi then angle - 2 * pi
              else angle)
      | None \<Rightarrow> 0)"

section \<open>main.py: angle difference\<close>

definition smallestAngleDiff :: "real \<Rightarrow> real \<Rightarrow> real" where
  "smallestAngleDiff target source =
     (let a = fmod (target + 2 * pi) (2 * pi) - fmod (source + 2 * pi) (2 * pi)
      in if a > pi then a - 2 * pi
         else if a < - pi then a + 2 * pi
         else a)"

section \<open>Entities, the field and the objectives\<close>

text \<open>
  Modelled from the spec: the class \<open>Entity\<close> that main.py imports from bridge is not among
  the sources. main.py builds it as \<open>Entity(index=i)\<close> and reads and writes the attributes
  \<open>x\<close>, \<open>y\<close> (a position, the spec's targetX and targetY of an objective) and \<open>a\<close> (the
  heading of a robot). The fields are prefixed, since \<open>x\<close>, \<open>y\<close> and \<open>a\<close> would otherwise
  become constants. A fresh entity has its numbers at \<open>0\<close>, the absent-value default of the
  spec.
\<close>

record entity =
  ent_index :: nat
  ent_x :: real
  ent_y :: real
  ent_a :: real

definition Entity :: "nat \<Rightarrow> entity" where
  "Entity i = \<lparr>ent_index = i, ent_x = 0, ent_y = 0, ent_a = 0\<rparr>"

text \<open>
  The exceptions of Python that the client can raise in the functions modelled here.
\<close>

datatype error = IndexError | TypeError | AttributeError

text \<open>
  What a field holds under the key \<open>ball\<close>: \<open>None\<close>, a dictionary (the value that
  \<open>Vision.get_ball\<close> of bridge.py builds, with the keys \<open>x\<close>, \<open>y\<close>, \<open>vx\<close>, \<open>vy\<close> and
  \<open>angle\<close>), or an object with the attributes \<open>x\<close> and \<open>y\<close>, which is what main.py
  reads. \<open>ball.x\<close> raises AttributeError on \<open>None\<close> and on a dictionary.
\<close>

datatype py_ball = NoneBall | DictBall "(string \<times> real) list" | ObjBall entity

text \<open>
  Modelled from the spec: the field that main.py receives. main.py reads it under the keys
  \<open>field["ball"]\<close> and \<open>field["our_bots"]\<close> (a list of entities, indexed by robot); the
  vision client among the sources builds no \<open>our_bots\<close>, so the record follows the reads of
  main.py and the spec's FieldSnapshot. \<open>Vision.get_field_data\<close> can also return \<open>None\<close>
  in place of the dictionary: a field is a \<open>field_data option\<close> where it is received, and
  \<open>field["ball"]\<close> raises TypeError on \<open>None\<close>.
\<close>

record field_data =
  ball :: py_ball
  our_bots :: "entity list"

text \<open>
  The loop \<open>for obj in objectives\<close> of \<open>main_strategy\<close>: each pass reads \<open>ball.x\<close> and
  \<open>ball.y\<close>.
\<close>

fun main_strategy_loop :: "py_ball \<Rightarrow> entity list \<Rightarrow> error + entity list" where
  "main_strategy_loop b [] = Inr []"
| "main_strategy_loop b (obj # rest) =
     (case b of
        ObjBall e \<Rightarrow>
          (case main_strategy_loop b rest of
             Inl err \<Rightarrow> Inl err
           | Inr objs \<Rightarrow> Inr (obj\<lparr>ent_x := ent_x e, ent_y := ent_y e\<rparr> # objs))
      | NoneBall \<Rightarrow> Inl AttributeError
      | DictBall d \<Rightarrow> Inl AttributeError)"

definition main_strategy :: "field_data option \<Rightarrow> error + entity list" where
  "main_strategy field =
     (case field of
        None \<Rightarrow> Inl TypeError
      | Some f \<Rightarrow>
          (let b = ball f;
               objectives = map Entity [0..<NUM_BOTS]
           in main_strategy_loop b objectives))"

section \<open>main.py: the controller\<close>

definition Kp :: real where
  "Kp = 20"

definition Kd :: real where
  "Kd = 2.5"

definition baseSpeed :: real where
  "baseSpeed = 30"

text \<open>
  One pass through the body of the \<open>for\<close> loop of \<open>controller\<close>, for one robot, given the
  value of \<open>controller.lastError\<close> that the pass reads. The result records the locals of the
  pass when it ends: \<open>reversed\<close>, the final \<open>error\<close> (which the pass stores into
  \<open>controller.lastError\<close>), \<open>error_speed\<close> as line 72 computes it and as lines 79-80
  leave it, and the two motor speeds.
\<close>

record bot_trace =
  tr_reversed :: bool
  tr_error :: real
  tr_pd :: real
  tr_error_speed :: real
  tr_left :: real
  tr_right :: real

definition controller_body :: "real \<Rightarrow> entity \<Rightarrow> entity \<Rightarrow> bot_trace" where
  "controller_body lastError objective our_bot =
     (let angle_rob = ent_a our_bot;
          angle_obj = atan2 (ent_y objective - ent_y our_bot) (ent_x objective - ent_x our_bot);
          error0 = smallestAngleDiff angle_rob angle_obj;
          reversed = (\<bar>error0\<bar> > pi / 2.0 + pi / 20.0);
          angle_rob' = (if reversed then convert_angle (Some (angle_rob + pi)) else angle_rob);
          error = (if reversed then smallestAngleDiff angle_rob' angle_obj else error0);
          pd = (Kp * error) + (Kd * (error - lastError));
          es1 = (if pd < baseSpeed then pd else baseSpeed);
          error_speed = (if es1 > - baseSpeed then es1 else - baseSpeed);
          left_motor_speed =
            (if error_speed > 0 then baseSpeed else baseSpeed + error_speed);
          right_motor_speed =
            (if error_speed > 0 then baseSpeed - error_speed else baseSpeed);
          left_motor_speed' =
            (if reversed
             then (if error_speed > 0 then - baseSpeed + error_speed else - baseSpeed)
             else left_motor_speed);
          right_motor_speed' =
            (if reversed
             then (if error_speed > 0 then - baseSpeed else - baseSpeed - error_speed)
             else right_motor_speed)
      in \<lparr>tr_reversed = reversed, tr_error = error, tr_pd = pd,
          tr_error_speed = error_speed,
          tr_left = left_motor_speed', tr_right = right_motor_speed'\<rparr>)"

text \<open>
  An entry of the list \<open>speeds\<close>: the dictionary with the keys \<open>index\<close>, \<open>left\<close> and
  \<open>right\<close>.
\<close>

record speed =
  sp_index :: nat
  sp_left :: real
  sp_right :: real

definition mk_speed :: "nat \<Rightarrow> bot_trace \<Rightarrow> speed" where
  "mk_speed i t = \<lparr>sp_index = i, sp_left = tr_left t, sp_right = tr_right t\<rparr>"

text \<open>
  The function attribute \<open>controller.lastError\<close> is the state of the controller: \<open>None\<close>
  while the attribute does not exist, \<open>Some v\<close> afterwards. The \<open>try\<close> at the head of the
  loop body creates it with \<open>0\<close>. \<open>objectives[i]\<close> and \<open>our_bots[i]\<close> raise IndexError on a
  list that is too short; the state then keeps what the passes before wrote.
\<close>

type_synonym ctrl_state = "real option"

definition read_lastError :: "ctrl_state \<Rightarrow> real" where
  "read_lastError st = (case st of None \<Rightarrow> 0 | Some v \<Rightarrow> v)"

fun controller_loop ::
  "field_data \<Rightarrow> entity list \<Rightarrow> nat list \<Rightarrow> ctrl_state \<Rightarrow> (error + speed list) \<times> ctrl_state"
where
  "controller_loop field objectives [] st = (Inr [], st)"
| "controller_loop field objectives (i # rest) st =
     (let lastError = read_lastError st
      in if length objectives \<le> i then (Inl IndexError, Some lastError)
         else if length (our_bots field) \<le> i then (Inl IndexError, Some lastError)
         else
           (let t = controller_body lastError (objectives ! i) (our_bots field ! i)
            in case controller_loop field objectives rest (Some (tr_error t)) of
                 (Inl e, st') \<Rightarrow> (Inl e, st')
               | (Inr ss, st') \<Rightarrow> (Inr (mk_speed i t # ss), st')))"

definition controller ::
  "field_data \<Rightarrow> entity list \<Rightarrow> ctrl_state \<Rightarrow> (error + speed list) \<times> ctrl_state"
where
  "controller field objectives st = controller_loop field objectives [0..<NUM_BOTS] st"

section \<open>The actuator and one pass of the main loop\<close>

text \<open>
  What the actuator sends is the list of calls of \<open>Actuator.send\<close>, each an index with a
  left and a right speed.
\<close>

type_synonym command = "nat \<times> real \<times> real"

definition send_all :: "speed list \<Rightarrow> command list" where
  "send_all speeds = map (\<lambda>s. (sp_index s, sp_left s, sp_right s)) speeds"

definition stop :: "command list" where
  "stop = map (\<lambda>i. (i, 0, 0)) [0..<NUM_BOTS]"

text \<open>
  The referee data that the loop reads: the interrupt type under the key \<open>foul\<close> and the
  flag \<open>game_on\<close>, both as the referee client reports them.
\<close>

record ref_data =
  foul :: int
  game_on :: bool

text \<open>
  One pass through the body of \<open>while True\<close>, from the polled referee data and field and the
  state of the controller to the commands sent and the new state. \<open>controller\<close> reads
  \<open>field["our_bots"]\<close>, which raises TypeError on a field that is \<open>None\<close>; the pass gets
  there only if \<open>main_strategy\<close> returned.
\<close>

definition tick ::
  "ref_data \<Rightarrow> field_data option \<Rightarrow> ctrl_state \<Rightarrow> (error + command list) \<times> ctrl_state"
where
  "tick rd field st =
     (if game_on rd then
        (case main_strategy field of
           Inl e \<Rightarrow> (Inl e, st)
         | Inr objectives \<Rightarrow>
             (case field of
                None \<Rightarrow> (Inl TypeError, st)
              | Some f \<Rightarrow>
                  (case controller f objectives st of
                     (Inl e, st') \<Rightarrow> (Inl e, st')
                   | (Inr speeds, st') \<Rightarrow> (Inr (send_all speeds), st'))))
      else if foul rd \<noteq> 7 then (Inr stop, st)
      else (Inr stop, st))"

text \<open>
  The loop itself never ends. A run of it is modelled on the list of what the referee and
  the vision client return pass by pass: the result lists, for every pass made, what the
  pass sent (or the exception that ended the process, after which no pass is made) and the
  state of the controller after the pass.
\<close>

fun main_loop ::
  "(ref_data \<times> field_data option) list \<Rightarrow> ctrl_state \<Rightarrow>
   ((error + command list) \<times> ctrl_state) list"
where
  "main_loop [] st = []"
| "main_loop ((rd, field) # rest) st =
     (case tick rd field st of
        (Inl e, st') \<Rightarrow> [(Inl e, st')]
      | (Inr cmds, st') \<Rightarrow> (Inr cmds, st') # main_loop rest st')"

section \<open>The controller state as the specification words it\<close>

text \<open>
  The specification keeps one \<open>lastHeadingError\<close> per robot index, \<open>0\<close> on the first use
  for that index, read and written only by the pass for that index. This second controller
  follows those words; everything else in it is the loop of \<open>controller\<close>. It exists to be
  compared with the one above.
\<close>

type_synonym per_index_state = "nat \<Rightarrow> real option"

fun controller_per_index_loop ::
  "field_data \<Rightarrow> entity list \<Rightarrow> nat list \<Rightarrow> per_index_state \<Rightarrow>
   (error + speed list) \<times> per_index_state"
where
  "controller_per_index_loop field objectives [] st = (Inr [], st)"
| "controller_per_index_loop field objectives (i # rest) st =
     (let lastHeadingError = read_lastError (st i)
      in if length objectives \<le> i then (Inl IndexError, st(i := Some lastHeadingError))
         else if length (our_bots field) \<le> i
         then (Inl IndexError, st(i := Some lastHeadingError))
         else
           (let t = controller_body lastHeadingError (objectives ! i) (our_bots field ! i)
            in case controller_per_index_loop field objectives rest
                      (st(i := Some (tr_error t))) of
                 (Inl e, st') \<Rightarrow> (Inl e, st')
               | (Inr ss, st') \<Rightarrow> (Inr (mk_speed i t # ss), st')))"

definition controller_per_index ::
  "field_data \<Rightarrow> entity list \<Rightarrow> per_index_state \<Rightarrow> (error + speed list) \<times> per_index_state"
where
  "controller_per_index field objectives st =
     controller_per_index_loop field objectives [0..<NUM_BOTS] st"

section \<open>A sample field\<close>

text \<open>
  Three robots in a row on the line \<open>y = 50\<close>, all heading \<open>1/2\<close> radian off the ball,
  which lies ahead of them on the same line.
\<close>

definition sample_field :: field_data where
  "sample_field =
     \<lparr>ball = ObjBall \<lparr>ent_index = 0, ent_x = 100, ent_y = 50, ent_a = 0\<rparr>,
      our_bots =
        [\<lparr>ent_index = 0, ent_x = 10, ent_y = 50, ent_a = 1 / 2\<rparr>,
         \<lparr>ent_index = 1, ent_x = 20, ent_y = 50, ent_a = 1 / 2\<rparr>,
         \<lparr>ent_index = 2, ent_x = 30, ent_y = 50, ent_a = 1 / 2\<rparr>]\<rparr>"

text \<open>
  The objectives of the three robots on the sample field: each at the ball.
\<close>

definition sample_objectives :: "entity list" where
  "sample_objectives =
     [\<lparr>ent_index = 0, ent_x = 100, ent_y = 50, ent_a = 0\<rparr>,
      \<lparr>ent_index = 1, ent_x = 100, ent_y = 50, ent_a = 0\<rparr>,
      \<lparr>ent_index = 2, ent_x = 100, ent_y = 50, ent_a = 0\<rparr>]"


section \<open>Facts about the remainder\<close>

lemma trunc_small: "\<bar>r\<bar> < 1 \<Longrightarrow> trunc r = 0"
  unfolding trunc_def by (auto simp: floor_eq_iff ceiling_eq_iff)

lemma fmod_small: "\<bar>x\<bar> < y \<Longrightarrow> fmod x y = x"
proof -
  assume h: "\<bar>x\<bar> < y"
  then have "0 < y" by linarith
  with h have "\<bar>x / y\<bar> < 1" by simp
  then show ?thesis by (simp add: fmod_def trunc_small)
qed

lemma scale_floor_le:
  fixes x y :: real
  assumes "0 < y" "of_int (n::int) \<le> x / y"
  shows "y * of_int n \<le> x"
  using assms by (simp add: pos_le_divide_eq mult.commute)

lemma scale_floor_less:
  fixes x y :: real
  assumes "0 < y" "x / y < of_int (n::int) + 1"
  shows "x < y * (of_int n + 1)"
  using assms by (simp add: pos_divide_less_eq mult.commute)

lemma scale_ceiling_le:
  fixes x y :: real
  assumes "0 < y" "x / y \<le> of_int (n::int)"
  shows "x \<le> y * of_int n"
  using assms by (simp add: pos_divide_le_eq mult.commute)

lemma scale_ceiling_less:
  fixes x y :: real
  assumes "0 < y" "of_int (n::int) - 1 < x / y"
  shows "y * (of_int n - 1) < x"
  using assms by (simp add: pos_less_divide_eq mult.commute)

lemma fmod_nonneg:
  assumes "0 < y" "0 \<le> x"
  shows "0 \<le> fmod x y \<and> fmod x y < y"
proof -
  from assms have q: "0 \<le> x / y" by simp
  have lo: "of_int \<lfloor>x / y\<rfloor> \<le> x / y" and hi: "x / y < of_int \<lfloor>x / y\<rfloor> + 1"
    by linarith+
  have "y * of_int \<lfloor>x / y\<rfloor> \<le> x"
    by (rule scale_floor_le [OF assms(1) lo])
  moreover have "x < y * (of_int \<lfloor>x / y\<rfloor> + 1)"
    by (rule scale_floor_less [OF assms(1) hi])
  ultimately show ?thesis using q
    by (simp add: fmod_def trunc_def algebra_simps)
qed

lemma fmod_neg:
  assumes "0 < y" "x < 0"
  shows "- y < fmod x y \<and> fmod x y \<le> 0"
proof -
  from assms have q: "\<not> 0 \<le> x / y" by (simp add: divide_less_0_iff not_le)
  have hi: "x / y \<le> of_int \<lceil>x / y\<rceil>" and lo: "of_int \<lceil>x / y\<rceil> - 1 < x / y"
    by linarith+
  have "x \<le> y * of_int \<lceil>x / y\<rceil>"
    by (rule scale_ceiling_le [OF assms(1) hi])
  moreover have "y * (of_int \<lceil>x / y\<rceil> - 1) < x"
    by (rule scale_ceiling_less [OF assms(1) lo])
  ultimately show ?thesis using q
    by (simp add: fmod_def trunc_def algebra_simps)
qed

lemma fmod_abs_less: "0 < y \<Longrightarrow> \<bar>fmod x y\<bar> < y"
  using fmod_nonneg [of y x] fmod_neg [of y x] by (cases "0 \<le> x") auto

lemma fmod_cong: "\<exists>k::int. fmod x y = x - y * of_int k"
  unfolding fmod_def by blast

lemma fmod_add_self: "0 \<le> x \<Longrightarrow> x < y \<Longrightarrow> fmod (x + y) y = x"
proof -
  assume h: "0 \<le> x" "x < y"
  then have y: "0 < y" by linarith
  have "(x + y) / y = x / y + 1" using y by (simp add: field_simps)
  moreover have "0 \<le> x / y" "x / y < 1" using h y by simp_all
  then have "\<lfloor>x / y\<rfloor> = 0" by (simp add: floor_eq_iff)
  ultimately show ?thesis using h y by (simp add: fmod_def trunc_def)
qed

lemma convert_angle_range: "\<bar>convert_angle a\<bar> \<le> pi"
proof (cases a)
  case None
  then show ?thesis by (simp add: convert_angle_def)
next
  case (Some r)
  have "\<bar>fmod r (2 * pi)\<bar> < 2 * pi" by (rule fmod_abs_less) simp
  with Some show ?thesis by (auto simp: convert_angle_def Let_def)
qed

section \<open>The angle difference at some inputs and in general\<close>

lemma sad_zero_pi: "smallestAngleDiff 0 pi = - pi"
proof -
  have a: "fmod (0 + 2 * pi) (2 * pi) = 0" by (rule fmod_add_self) simp_all
  have b: "fmod (pi + 2 * pi) (2 * pi) = pi" by (rule fmod_add_self) simp_all
  show ?thesis unfolding smallestAngleDiff_def Let_def a b by simp
qed

lemma sad_far: "smallestAngleDiff (- (pi / 4)) (- (15 * pi / 4)) = 3 * pi / 2"
proof -
  have e1: "- (pi / 4) + 2 * pi = 7 * pi / 4" by simp
  have e2: "- (15 * pi / 4) + 2 * pi = - (7 * pi / 4)" by simp
  have a: "fmod (7 * pi / 4) (2 * pi) = 7 * pi / 4" by (rule fmod_small) simp
  have b: "fmod (- (7 * pi / 4)) (2 * pi) = - (7 * pi / 4)" by (rule fmod_small) simp
  show ?thesis unfolding smallestAngleDiff_def Let_def e1 e2 a b by simp
qed

lemma sad_half_zero: "smallestAngleDiff (1 / 2) 0 = 1 / 2"
proof -
  have p: "2 \<le> pi" by (rule pi_ge_two)
  have a: "fmod (1 / 2 + 2 * pi) (2 * pi) = 1 / 2" by (rule fmod_add_self) (use p in simp_all)
  have b: "fmod (0 + 2 * pi) (2 * pi) = 0" by (rule fmod_add_self) simp_all
  show ?thesis unfolding smallestAngleDiff_def Let_def a b using p by simp
qed

lemma sad_cong: "\<exists>k::int. smallestAngleDiff target source = target - source + 2 * pi * of_int k"
proof -
  obtain k1 :: int where k1: "fmod (target + 2 * pi) (2 * pi) = target + 2 * pi - 2 * pi * of_int k1"
    using fmod_cong by blast
  obtain k2 :: int where k2: "fmod (source + 2 * pi) (2 * pi) = source + 2 * pi - 2 * pi * of_int k2"
    using fmod_cong by blast
  define a where "a = fmod (target + 2 * pi) (2 * pi) - fmod (source + 2 * pi) (2 * pi)"
  have a: "a = target - source + 2 * pi * of_int (k2 - k1)"
    unfolding a_def k1 k2 by (simp add: algebra_simps)
  have r: "smallestAngleDiff target source =
      (if a > pi then a - 2 * pi else if a < - pi then a + 2 * pi else a)"
    unfolding smallestAngleDiff_def a_def Let_def ..
  consider "a > pi" | "\<not> a > pi" "a < - pi" | "\<not> a > pi" "\<not> a < - pi" by blast
  then show ?thesis
  proof cases
    case 1
    then have "smallestAngleDiff target source = target - source + 2 * pi * of_int (k2 - k1 - 1)"
      unfolding r a by (simp add: algebra_simps)
    then show ?thesis by blast
  next
    case 2
    then have "smallestAngleDiff target source = target - source + 2 * pi * of_int (k2 - k1 + 1)"
      unfolding r a by (simp add: algebra_simps)
    then show ?thesis by blast
  next
    case 3
    then have "smallestAngleDiff target source = target - source + 2 * pi * of_int (k2 - k1)"
      unfolding r a by simp
    then show ?thesis by blast
  qed
qed

lemma sad_range:
  assumes "- (2 * pi) \<le> target" "- (2 * pi) \<le> source"
  shows "- pi \<le> smallestAngleDiff target source \<and> smallestAngleDiff target source \<le> pi \<and>
    (smallestAngleDiff target source = - pi \<longleftrightarrow>
       fmod (target + 2 * pi) (2 * pi) - fmod (source + 2 * pi) (2 * pi) = - pi)"
proof -
  have t: "0 \<le> fmod (target + 2 * pi) (2 * pi) \<and> fmod (target + 2 * pi) (2 * pi) < 2 * pi"
    by (rule fmod_nonneg) (use assms in simp_all)
  have s: "0 \<le> fmod (source + 2 * pi) (2 * pi) \<and> fmod (source + 2 * pi) (2 * pi) < 2 * pi"
    by (rule fmod_nonneg) (use assms in simp_all)
  define a where "a = fmod (target + 2 * pi) (2 * pi) - fmod (source + 2 * pi) (2 * pi)"
  have a: "- (2 * pi) < a" "a < 2 * pi" using t s unfolding a_def by linarith+
  have r: "smallestAngleDiff target source =
      (if a > pi then a - 2 * pi else if a < - pi then a + 2 * pi else a)"
    unfolding smallestAngleDiff_def a_def Let_def ..
  have "- pi \<le> smallestAngleDiff target source \<and> smallestAngleDiff target source \<le> pi \<and>
    (smallestAngleDiff target source = - pi \<longleftrightarrow> a = - pi)"
    unfolding r using a by auto
  then show ?thesis unfolding a_def .
qed

section \<open>Claims about the geometry utilities\<close>

text \<open>
  C8: for every real \<open>a\<close>, the signed angle difference of \<open>a\<close> with itself is exactly zero.
\<close>

theorem smallestAngleDiff_self: "smallestAngleDiff a a = 0"
  by (simp add: smallestAngleDiff_def)

text \<open>
  C9: \<open>convert_angle\<close> (the spec's normalizeAngle) is idempotent: normalising an already
  normalised angle returns it unchanged. The statement covers every input of the function,
  the absent one included.
\<close>

theorem convert_angle_idem: "convert_angle (Some (convert_angle a)) = convert_angle a"
proof -
  have r: "\<bar>convert_angle a\<bar> \<le> pi" by (rule convert_angle_range)
  have "pi < 2 * pi" by simp
  with r have "\<bar>convert_angle a\<bar> < 2 * pi" by linarith
  then have "fmod (convert_angle a) (2 * pi) = convert_angle a" by (rule fmod_small)
  with r show ?thesis
    by (subst (1) convert_angle_def) (auto simp: Let_def)
qed

text \<open>
  C7: the coordinate conversions are total. On a number \<open>raw\<close>, \<open>convert_length\<close> returns
  \<open>(LENGTH + raw) * 100\<close> and \<open>convert_width\<close> returns \<open>(WIDTH + raw) * 100\<close>, with the
  half-field constants \<open>LENGTH = 0.85\<close> and \<open>WIDTH = 0.65\<close>; on the absent input each returns
  \<open>0\<close>.
\<close>

theorem convert_total:
  "convert_length (Some raw) = (LENGTH + raw) * 100 \<and>
   convert_width (Some raw) = (WIDTH + raw) * 100 \<and>
   convert_length None = 0 \<and> convert_width None = 0 \<and>
   LENGTH = 85 / 100 \<and> WIDTH = 65 / 100"
  by (simp add: convert_length_def convert_width_def LENGTH_def WIDTH_def)

text \<open>
  C2, as stated, fails. The claim puts the result of \<open>smallestAngleDiff\<close> in the half-open
  interval \<open>(-pi, pi]\<close> for every pair of reals. The folds of the function compare strictly
  (\<open>a > pi\<close>, \<open>a < -pi\<close>), so a difference of exactly \<open>-pi\<close> is returned as it is: with
  target \<open>0\<close> and source \<open>pi\<close> the result is \<open>-pi\<close>. And the remainder of a negative
  number is negative, so for a source below \<open>-2 * pi\<close> the difference of the two remainders
  can exceed \<open>3 * pi\<close>, which one fold does not bring back: with target \<open>-pi/4\<close> and source
  \<open>-15 * pi / 4\<close> the result is \<open>3 * pi / 2\<close>.
\<close>

theorem smallestAngleDiff_half_open_counterexample:
  "smallestAngleDiff 0 pi = - pi \<and> \<not> (- pi < smallestAngleDiff 0 pi) \<and>
   smallestAngleDiff (- (pi / 4)) (- (15 * pi / 4)) = 3 * pi / 2 \<and>
   \<not> (smallestAngleDiff (- (pi / 4)) (- (15 * pi / 4)) \<le> pi)"
  by (simp add: sad_zero_pi sad_far)

text \<open>
  C2, as amended: for every pair of reals the result is congruent to \<open>target - source\<close>
  modulo \<open>2 * pi\<close>; when both inputs are at least \<open>-2 * pi\<close> the result lies in the closed
  interval \<open>[-pi, pi]\<close>, and it is \<open>-pi\<close> exactly when the difference of the two remainders
  is \<open>-pi\<close>.
\<close>

theorem smallestAngleDiff_closed_range:
  "(\<exists>k::int. smallestAngleDiff target source = target - source + 2 * pi * of_int k) \<and>
   (- (2 * pi) \<le> target \<and> - (2 * pi) \<le> source \<longrightarrow>
      - pi \<le> smallestAngleDiff target source \<and> smallestAngleDiff target source \<le> pi \<and>
      (smallestAngleDiff target source = - pi \<longleftrightarrow>
         fmod (target + 2 * pi) (2 * pi) - fmod (source + 2 * pi) (2 * pi) = - pi))"
  using sad_cong [of target source] sad_range [of target source] by blast

text \<open>
  The amended claim at target \<open>1/2\<close> and source \<open>0\<close>: both are above \<open>-2 * pi\<close>, and the
  result lies in the interval, away from \<open>-pi\<close>.
\<close>

theorem smallestAngleDiff_closed_range_witness:
  "- (2 * pi) \<le> 1 / 2 \<and> - (2 * pi) \<le> 0 \<and>
   - pi \<le> smallestAngleDiff (1 / 2) 0 \<and> smallestAngleDiff (1 / 2) 0 \<le> pi \<and>
   smallestAngleDiff (1 / 2) 0 \<noteq> - pi"
proof -
  have h: "- (2 * pi) \<le> 1 / 2 \<and> - (2 * pi) \<le> 0"
    using pi_ge_two by simp
  have "smallestAngleDiff (1 / 2) 0 \<noteq> - pi"
    using pi_ge_two by (simp add: sad_half_zero)
  with h smallestAngleDiff_closed_range [of "1 / 2" 0] show ?thesis by blast
qed

section \<open>One pass of the controller, field by field\<close>

lemma body_reversed:
  "tr_reversed (controller_body lastError objective our_bot) =
     (\<bar>smallestAngleDiff (ent_a our_bot)
         (atan2 (ent_y objective - ent_y our_bot) (ent_x objective - ent_x our_bot))\<bar>
      > pi / 2 + pi / 20)"
  unfolding controller_body_def Let_def by simp

lemma body_error:
  "tr_error (controller_body lastError objective our_bot) =
     (if tr_reversed (controller_body lastError objective our_bot)
      then smallestAngleDiff (convert_angle (Some (ent_a our_bot + pi)))
             (atan2 (ent_y objective - ent_y our_bot) (ent_x objective - ent_x our_bot))
      else smallestAngleDiff (ent_a our_bot)
             (atan2 (ent_y objective - ent_y our_bot) (ent_x objective - ent_x our_bot)))"
  unfolding controller_body_def Let_def by simp

lemma body_pd:
  "tr_pd (controller_body lastError objective our_bot) =
     Kp * tr_error (controller_body lastError objective our_bot) +
     Kd * (tr_error (controller_body lastError objective our_bot) - lastError)"
  unfolding controller_body_def Let_def by simp

lemma body_error_speed:
  "tr_error_speed (controller_body lastError objective our_bot) =
     max (- baseSpeed) (min baseSpeed (tr_pd (controller_body lastError objective our_bot)))"
  unfolding controller_body_def Let_def by (simp add: baseSpeed_def max_def min_def)

lemma body_left:
  "tr_left (controller_body lastError objective our_bot) =
     (let es = tr_error_speed (controller_body lastError objective our_bot)
      in if tr_reversed (controller_body lastError objective our_bot)
         then (if es > 0 then - baseSpeed + es else - baseSpeed)
         else (if es > 0 then baseSpeed else baseSpeed + es))"
  unfolding controller_body_def Let_def by simp

lemma body_right:
  "tr_right (controller_body lastError objective our_bot) =
     (let es = tr_error_speed (controller_body lastError objective our_bot)
      in if tr_reversed (controller_body lastError objective our_bot)
         then (if es > 0 then - baseSpeed else - baseSpeed - es)
         else (if es > 0 then baseSpeed - es else baseSpeed))"
  unfolding controller_body_def Let_def by simp

lemma body_bounds:
  "(let t = controller_body lastError objective our_bot
    in if tr_reversed t
       then - baseSpeed \<le> tr_left t \<and> tr_left t \<le> 0 \<and> - baseSpeed \<le> tr_right t \<and> tr_right t \<le> 0
       else 0 \<le> tr_left t \<and> tr_left t \<le> baseSpeed \<and> 0 \<le> tr_right t \<and> tr_right t \<le> baseSpeed)"
proof -
  define t where "t = controller_body lastError objective our_bot"
  define es where "es = tr_error_speed t"
  have es: "- baseSpeed \<le> es" "es \<le> baseSpeed"
    unfolding es_def t_def body_error_speed by (simp_all add: baseSpeed_def)
  have l: "tr_left t = (if tr_reversed t
         then (if es > 0 then - baseSpeed + es else - baseSpeed)
         else (if es > 0 then baseSpeed else baseSpeed + es))"
    unfolding es_def t_def by (subst body_left) (simp add: Let_def)
  have r: "tr_right t = (if tr_reversed t
         then (if es > 0 then - baseSpeed else - baseSpeed - es)
         else (if es > 0 then baseSpeed - es else baseSpeed))"
    unfolding es_def t_def by (subst body_right) (simp add: Let_def)
  have "if tr_reversed t
       then - baseSpeed \<le> tr_left t \<and> tr_left t \<le> 0 \<and> - baseSpeed \<le> tr_right t \<and> tr_right t \<le> 0
       else 0 \<le> tr_left t \<and> tr_left t \<le> baseSpeed \<and> 0 \<le> tr_right t \<and> tr_right t \<le> baseSpeed"
    using es unfolding l r by (simp add: baseSpeed_def)
  then show ?thesis unfolding t_def Let_def .
qed

section \<open>The loop of the controller\<close>

lemma bots_range: "[0..<NUM_BOTS] = [0, 1, 2]"
  by (simp add: NUM_BOTS_def upt_rec)

lemma controller_unrolled:
  assumes "NUM_BOTS \<le> length objectives" "NUM_BOTS \<le> length (our_bots field)"
  shows "controller field objectives st =
     (let t0 = controller_body (read_lastError st) (objectives ! 0) (our_bots field ! 0);
          t1 = controller_body (tr_error t0) (objectives ! 1) (our_bots field ! 1);
          t2 = controller_body (tr_error t1) (objectives ! 2) (our_bots field ! 2)
      in (Inr [mk_speed 0 t0, mk_speed 1 t1, mk_speed 2 t2], Some (tr_error t2)))"
  using assms unfolding controller_def bots_range
  by (auto simp: NUM_BOTS_def Let_def read_lastError_def)

lemma controller_short:
  assumes "length objectives < NUM_BOTS \<or> length (our_bots field) < NUM_BOTS"
  shows "fst (controller field objectives st) = Inl IndexError"
  using assms unfolding controller_def bots_range
  by (auto simp: NUM_BOTS_def Let_def split: prod.splits sum.splits)

lemma controller_ok_lengths:
  assumes "controller field objectives st = (Inr speeds, st')"
  shows "NUM_BOTS \<le> length objectives \<and> NUM_BOTS \<le> length (our_bots field)"
proof (rule ccontr)
  assume "\<not> ?thesis"
  then have "length objectives < NUM_BOTS \<or> length (our_bots field) < NUM_BOTS" by linarith
  then have "fst (controller field objectives st) = Inl IndexError" by (rule controller_short)
  with assms show False by simp
qed

lemma controller_nth:
  assumes "controller field objectives st = (Inr speeds, st')" "i < NUM_BOTS"
  shows "length speeds = NUM_BOTS \<and>
    (\<exists>l. speeds ! i = mk_speed i (controller_body l (objectives ! i) (our_bots field ! i)))"
proof -
  from assms(1) have len: "NUM_BOTS \<le> length objectives" "NUM_BOTS \<le> length (our_bots field)"
    using controller_ok_lengths by blast+
  have sp: "speeds =
     (let t0 = controller_body (read_lastError st) (objectives ! 0) (our_bots field ! 0);
          t1 = controller_body (tr_error t0) (objectives ! 1) (our_bots field ! 1);
          t2 = controller_body (tr_error t1) (objectives ! 2) (our_bots field ! 2)
      in [mk_speed 0 t0, mk_speed 1 t1, mk_speed 2 t2])"
    using assms(1) unfolding controller_unrolled [OF len] by (simp add: Let_def)
  from assms(2) consider "i = 0" | "i = 1" | "i = 2" unfolding NUM_BOTS_def by linarith
  then show ?thesis
  proof cases
    case 1
    then show ?thesis unfolding sp Let_def by (auto simp: NUM_BOTS_def)
  next
    case 2
    then show ?thesis unfolding sp Let_def by (auto simp: NUM_BOTS_def)
  next
    case 3
    then show ?thesis unfolding sp Let_def by (auto simp: NUM_BOTS_def)
  qed
qed

section \<open>The controller on the sample field\<close>

lemma sample_body_first:
  assumes "x < 100"
  shows "controller_body 0 \<lparr>ent_index = i, ent_x = 100, ent_y = 50, ent_a = 0\<rparr>
           \<lparr>ent_index = j, ent_x = x, ent_y = 50, ent_a = 1 / 2\<rparr> =
     \<lparr>tr_reversed = False, tr_error = 1 / 2, tr_pd = 45 / 4,
      tr_error_speed = 45 / 4, tr_left = 30, tr_right = 75 / 4\<rparr>"
proof -
  have p: "2 \<le> pi" by (rule pi_ge_two)
  have nr: "\<not> (\<bar>1 / 2 :: real\<bar> > pi / 2.0 + pi / 20.0)" using p by simp
  show ?thesis
    unfolding controller_body_def Let_def
    using nr assms by (simp add: atan2_def sad_half_zero Kp_def Kd_def baseSpeed_def)
qed

lemma sample_body_next:
  assumes "x < 100"
  shows "controller_body (1 / 2) \<lparr>ent_index = i, ent_x = 100, ent_y = 50, ent_a = 0\<rparr>
           \<lparr>ent_index = j, ent_x = x, ent_y = 50, ent_a = 1 / 2\<rparr> =
     \<lparr>tr_reversed = False, tr_error = 1 / 2, tr_pd = 10,
      tr_error_speed = 10, tr_left = 30, tr_right = 20\<rparr>"
proof -
  have p: "2 \<le> pi" by (rule pi_ge_two)
  have nr: "\<not> (\<bar>1 / 2 :: real\<bar> > pi / 2.0 + pi / 20.0)" using p by simp
  show ?thesis
    unfolding controller_body_def Let_def
    using nr assms by (simp add: atan2_def sad_half_zero Kp_def Kd_def baseSpeed_def)
qed

lemma sample_main_strategy: "main_strategy (Some sample_field) = Inr sample_objectives"
  unfolding main_strategy_def bots_range
  by (simp add: sample_field_def sample_objectives_def Entity_def)

lemma sample_controller:
  "controller sample_field sample_objectives None =
     (Inr [\<lparr>sp_index = 0, sp_left = 30, sp_right = 75 / 4\<rparr>,
           \<lparr>sp_index = 1, sp_left = 30, sp_right = 20\<rparr>,
           \<lparr>sp_index = 2, sp_left = 30, sp_right = 20\<rparr>], Some (1 / 2))"
  unfolding controller_def bots_range sample_objectives_def
  by (simp add: sample_field_def read_lastError_def sample_body_first sample_body_next
      mk_speed_def)

lemma sample_controller_per_index:
  "fst (controller_per_index sample_field sample_objectives (\<lambda>i. None)) =
     Inr [\<lparr>sp_index = 0, sp_left = 30, sp_right = 75 / 4\<rparr>,
          \<lparr>sp_index = 1, sp_left = 30, sp_right = 75 / 4\<rparr>,
          \<lparr>sp_index = 2, sp_left = 30, sp_right = 75 / 4\<rparr>]"
  unfolding controller_per_index_def bots_range sample_objectives_def
  by (simp add: sample_field_def read_lastError_def sample_body_first mk_speed_def)

section \<open>Claims about the controller\<close>


text \<open>
  C4: the pass is reversed exactly when the first heading error
  \<open>smallestAngleDiff heading angleToTarget\<close>, with
  \<open>angleToTarget = atan2 (targetY - y) (targetX - x)\<close>, exceeds \<open>pi/2 + pi/20\<close> in absolute
  value. Then the error that enters the PD term (and is stored) is recomputed from
  \<open>convert_angle (heading + pi)\<close>; otherwise it is the first error. Reversal shows in the
  output: it holds exactly when the smaller motor speed is \<open>-baseSpeed\<close>.
\<close>

theorem reversed_mode_trigger:
  "(let t = controller_body lastError objective our_bot;
        angleToTarget = atan2 (ent_y objective - ent_y our_bot) (ent_x objective - ent_x our_bot);
        error0 = smallestAngleDiff (ent_a our_bot) angleToTarget;
        trig = (\<bar>error0\<bar> > pi / 2 + pi / 20)
    in tr_reversed t = trig \<and>
       tr_error t =
         (if trig
          then smallestAngleDiff (convert_angle (Some (ent_a our_bot + pi))) angleToTarget
          else error0) \<and>
       tr_pd t = Kp * tr_error t + Kd * (tr_error t - lastError) \<and>
       (trig \<longleftrightarrow> min (tr_left t) (tr_right t) = - baseSpeed))"
proof -
  define t where "t = controller_body lastError objective our_bot"
  define angleToTarget where
    "angleToTarget = atan2 (ent_y objective - ent_y our_bot) (ent_x objective - ent_x our_bot)"
  define error0 where "error0 = smallestAngleDiff (ent_a our_bot) angleToTarget"
  define trig where "trig = (\<bar>error0\<bar> > pi / 2 + pi / 20)"
  have rev: "tr_reversed t = trig"
    unfolding t_def trig_def error0_def angleToTarget_def by (rule body_reversed)
  have err: "tr_error t =
         (if trig
          then smallestAngleDiff (convert_angle (Some (ent_a our_bot + pi))) angleToTarget
          else error0)"
    unfolding rev [symmetric] unfolding t_def error0_def angleToTarget_def by (rule body_error)
  have pd: "tr_pd t = Kp * tr_error t + Kd * (tr_error t - lastError)"
    unfolding t_def by (rule body_pd)
  have b: "if tr_reversed t
       then - baseSpeed \<le> tr_left t \<and> tr_left t \<le> 0 \<and> - baseSpeed \<le> tr_right t \<and> tr_right t \<le> 0
       else 0 \<le> tr_left t \<and> tr_left t \<le> baseSpeed \<and> 0 \<le> tr_right t \<and> tr_right t \<le> baseSpeed"
    using body_bounds [of lastError objective our_bot] unfolding Let_def t_def .
  have one: "tr_reversed t \<Longrightarrow> tr_left t = - baseSpeed \<or> tr_right t = - baseSpeed"
    unfolding t_def by (subst body_left, subst body_right) (simp add: Let_def)
  have obs: "trig \<longleftrightarrow> min (tr_left t) (tr_right t) = - baseSpeed"
  proof (cases "tr_reversed t")
    case True
    with b one show ?thesis unfolding rev [symmetric] by (auto simp: min_def)
  next
    case False
    with b show ?thesis unfolding rev [symmetric] by (auto simp: min_def baseSpeed_def)
  qed
  from rev err pd obs show ?thesis
    unfolding Let_def trig_def error0_def angleToTarget_def t_def by blast
qed

text \<open>
  C10: for every robot, objective and stored \<open>lastError\<close>, both motor speeds of a pass lie
  in \<open>[-30, 30]\<close>; both are in \<open>[0, 30]\<close> when reversed mode is not triggered and in
  \<open>[-30, 0]\<close> when it is. The same holds of every entry of the list that \<open>controller\<close>
  returns, whose entry \<open>i\<close> carries the index \<open>i\<close>.
\<close>

theorem wheel_speed_bounds:
  "(let t = controller_body lastError objective our_bot;
        trig = (\<bar>smallestAngleDiff (ent_a our_bot)
                  (atan2 (ent_y objective - ent_y our_bot) (ent_x objective - ent_x our_bot))\<bar>
                > pi / 2 + pi / 20)
    in - 30 \<le> tr_left t \<and> tr_left t \<le> 30 \<and> - 30 \<le> tr_right t \<and> tr_right t \<le> 30 \<and>
       (if trig then tr_left t \<le> 0 \<and> tr_right t \<le> 0
        else 0 \<le> tr_left t \<and> 0 \<le> tr_right t)) \<and>
   (controller field objectives st = (Inr speeds, st') \<and> i < NUM_BOTS \<longrightarrow>
      (let s = speeds ! i;
           trig = (\<bar>smallestAngleDiff (ent_a (our_bots field ! i))
                     (atan2 (ent_y (objectives ! i) - ent_y (our_bots field ! i))
                            (ent_x (objectives ! i) - ent_x (our_bots field ! i)))\<bar>
                   > pi / 2 + pi / 20)
       in sp_index s = i \<and>
          - 30 \<le> sp_left s \<and> sp_left s \<le> 30 \<and> - 30 \<le> sp_right s \<and> sp_right s \<le> 30 \<and>
          (if trig then sp_left s \<le> 0 \<and> sp_right s \<le> 0
           else 0 \<le> sp_left s \<and> 0 \<le> sp_right s)))"
proof -
  have body: "\<And>l obj rob.
    (let t = controller_body l obj rob;
        trig = (\<bar>smallestAngleDiff (ent_a rob)
                  (atan2 (ent_y obj - ent_y rob) (ent_x obj - ent_x rob))\<bar>
                > pi / 2 + pi / 20)
    in - 30 \<le> tr_left t \<and> tr_left t \<le> 30 \<and> - 30 \<le> tr_right t \<and> tr_right t \<le> 30 \<and>
       (if trig then tr_left t \<le> 0 \<and> tr_right t \<le> 0
        else 0 \<le> tr_left t \<and> 0 \<le> tr_right t))"
  proof -
    fix l obj rob
    show "?thesis l obj rob"
      using body_bounds [of l obj rob] body_reversed [of l obj rob]
      unfolding Let_def baseSpeed_def by (auto split: if_splits)
  qed
  have ctl: "controller field objectives st = (Inr speeds, st') \<and> i < NUM_BOTS \<longrightarrow>
      (let s = speeds ! i;
           trig = (\<bar>smallestAngleDiff (ent_a (our_bots field ! i))
                     (atan2 (ent_y (objectives ! i) - ent_y (our_bots field ! i))
                            (ent_x (objectives ! i) - ent_x (our_bots field ! i)))\<bar>
                   > pi / 2 + pi / 20)
       in sp_index s = i \<and>
          - 30 \<le> sp_left s \<and> sp_left s \<le> 30 \<and> - 30 \<le> sp_right s \<and> sp_right s \<le> 30 \<and>
          (if trig then sp_left s \<le> 0 \<and> sp_right s \<le> 0
           else 0 \<le> sp_left s \<and> 0 \<le> sp_right s))"
  proof
    assume h: "controller field objectives st = (Inr speeds, st') \<and> i < NUM_BOTS"
    then obtain l where
      s: "speeds ! i = mk_speed i (controller_body l (objectives ! i) (our_bots field ! i))"
      using controller_nth by blast
    show "let s = speeds ! i;
           trig = (\<bar>smallestAngleDiff (ent_a (our_bots field ! i))
                     (atan2 (ent_y (objectives ! i) - ent_y (our_bots field ! i))
                            (ent_x (objectives ! i) - ent_x (our_bots field ! i)))\<bar>
                   > pi / 2 + pi / 20)
       in sp_index s = i \<and>
          - 30 \<le> sp_left s \<and> sp_left s \<le> 30 \<and> - 30 \<le> sp_right s \<and> sp_right s \<le> 30 \<and>
          (if trig then sp_left s \<le> 0 \<and> sp_right s \<le> 0
           else 0 \<le> sp_left s \<and> 0 \<le> sp_right s)"
      using body [of l "objectives ! i" "our_bots field ! i"]
      unfolding Let_def s mk_speed_def by simp
  qed
  from body [of lastError objective our_bot] ctl show ?thesis by blast
qed

text \<open>
  The bounds on the sample field: the controller returns three entries, and the entry of
  robot \<open>1\<close> is within them.
\<close>

theorem wheel_speed_bounds_witness:
  "controller sample_field sample_objectives None =
     (Inr [\<lparr>sp_index = 0, sp_left = 30, sp_right = 75 / 4\<rparr>,
           \<lparr>sp_index = 1, sp_left = 30, sp_right = 20\<rparr>,
           \<lparr>sp_index = 2, sp_left = 30, sp_right = 20\<rparr>], Some (1 / 2)) \<and>
   1 < NUM_BOTS \<and>
   (let s = [\<lparr>sp_index = 0, sp_left = 30, sp_right = 75 / 4\<rparr>,
             \<lparr>sp_index = 1, sp_left = 30, sp_right = 20\<rparr>,
             \<lparr>sp_index = 2, sp_left = 30, sp_right = 20\<rparr>] ! 1
    in sp_index s = 1 \<and> - 30 \<le> sp_left s \<and> sp_left s \<le> 30 \<and>
       - 30 \<le> sp_right s \<and> sp_right s \<le> 30)"
proof -
  have h: "controller sample_field sample_objectives None =
     (Inr [\<lparr>sp_index = 0, sp_left = 30, sp_right = 75 / 4\<rparr>,
           \<lparr>sp_index = 1, sp_left = 30, sp_right = 20\<rparr>,
           \<lparr>sp_index = 2, sp_left = 30, sp_right = 20\<rparr>], Some (1 / 2)) \<and>
     1 < NUM_BOTS"
    by (simp add: sample_controller NUM_BOTS_def)
  from h wheel_speed_bounds [of _ _ _ sample_field sample_objectives None
      "[\<lparr>sp_index = 0, sp_left = 30, sp_right = 75 / 4\<rparr>,
        \<lparr>sp_index = 1, sp_left = 30, sp_right = 20\<rparr>,
        \<lparr>sp_index = 2, sp_left = 30, sp_right = 20\<rparr>]" "Some (1 / 2)" 1]
  show ?thesis unfolding Let_def by blast
qed

text \<open>
  C1, as stated, fails. The claim keeps one \<open>lastHeadingError\<close> per robot index, \<open>0\<close> on
  the first run for that index. The code keeps a single \<open>controller.lastError\<close> for all
  robots. On the sample field and a fresh controller the three robots see the same error
  \<open>1/2\<close>; with a state per index (\<open>controller_per_index\<close>) each would get
  \<open>right = 30 - (20 * 1/2 + 2.5 * (1/2 - 0)) = 75/4\<close>, but the code gives robots \<open>1\<close> and
  \<open>2\<close> the derivative term \<open>2.5 * (1/2 - 1/2) = 0\<close>, from the error of the robot before on
  the same tick, hence \<open>right = 20\<close>.
\<close>

theorem per_index_state_counterexample:
  "fst (controller sample_field sample_objectives None) =
     Inr [\<lparr>sp_index = 0, sp_left = 30, sp_right = 75 / 4\<rparr>,
          \<lparr>sp_index = 1, sp_left = 30, sp_right = 20\<rparr>,
          \<lparr>sp_index = 2, sp_left = 30, sp_right = 20\<rparr>] \<and>
   fst (controller_per_index sample_field sample_objectives (\<lambda>i. None)) =
     Inr [\<lparr>sp_index = 0, sp_left = 30, sp_right = 75 / 4\<rparr>,
          \<lparr>sp_index = 1, sp_left = 30, sp_right = 75 / 4\<rparr>,
          \<lparr>sp_index = 2, sp_left = 30, sp_right = 75 / 4\<rparr>] \<and>
   fst (controller sample_field sample_objectives None) \<noteq>
   fst (controller_per_index sample_field sample_objectives (\<lambda>i. None))"
  by (simp add: sample_controller sample_controller_per_index)

text \<open>
  C1, as amended: the controller retains a single scalar \<open>lastError\<close>, shared by all robot
  indices and read as \<open>0\<close> while it does not exist. In a run over three robots, the
  derivative term of robot \<open>0\<close> uses the value the state held when the run began (the error
  of the last robot of the previous run), the derivative term of robot \<open>1\<close> uses the error
  of robot \<open>0\<close> of the same run, that of robot \<open>2\<close> the error of robot \<open>1\<close>, and the
  state after the run is the error of robot \<open>2\<close>.
\<close>

theorem lastError_shared_by_all_robots:
  assumes "NUM_BOTS \<le> length objectives" "NUM_BOTS \<le> length (our_bots field)"
  shows "(let t0 = controller_body (read_lastError st) (objectives ! 0) (our_bots field ! 0);
              t1 = controller_body (tr_error t0) (objectives ! 1) (our_bots field ! 1);
              t2 = controller_body (tr_error t1) (objectives ! 2) (our_bots field ! 2)
          in controller field objectives st =
               (Inr [mk_speed 0 t0, mk_speed 1 t1, mk_speed 2 t2], Some (tr_error t2)) \<and>
             tr_pd t0 = Kp * tr_error t0 + Kd * (tr_error t0 - read_lastError st) \<and>
             tr_pd t1 = Kp * tr_error t1 + Kd * (tr_error t1 - tr_error t0) \<and>
             tr_pd t2 = Kp * tr_error t2 + Kd * (tr_error t2 - tr_error t1) \<and>
             read_lastError (snd (controller field objectives st)) = tr_error t2) \<and>
         read_lastError None = 0"
  unfolding controller_unrolled [OF assms] Let_def
  by (simp add: body_pd read_lastError_def)

text \<open>
  The amended claim on the sample field, from a fresh controller.
\<close>

theorem lastError_shared_by_all_robots_witness:
  "NUM_BOTS \<le> length sample_objectives \<and>
   NUM_BOTS \<le> length (our_bots sample_field) \<and>
   (let objectives = sample_objectives;
        t0 = controller_body (read_lastError None) (objectives ! 0) (our_bots sample_field ! 0);
        t1 = controller_body (tr_error t0) (objectives ! 1) (our_bots sample_field ! 1);
        t2 = controller_body (tr_error t1) (objectives ! 2) (our_bots sample_field ! 2)
    in controller sample_field objectives None =
         (Inr [mk_speed 0 t0, mk_speed 1 t1, mk_speed 2 t2], Some (tr_error t2)) \<and>
       tr_pd t1 = Kp * tr_error t1 + Kd * (tr_error t1 - tr_error t0))"
proof -
  have h1: "NUM_BOTS \<le> length sample_objectives"
    by (simp add: sample_objectives_def NUM_BOTS_def)
  have h2: "NUM_BOTS \<le> length (our_bots sample_field)"
    by (simp add: sample_field_def NUM_BOTS_def)
  from h1 h2 lastError_shared_by_all_robots [OF h1 h2, of None] show ?thesis
    unfolding Let_def by blast
qed

section \<open>Passes of the main loop\<close>

lemma main_loop_nth:
  "k < length (main_loop polls st) \<Longrightarrow>
   main_loop polls st ! k =
     tick (fst (polls ! k)) (snd (polls ! k))
       (if k = 0 then st else snd (main_loop polls st ! (k - 1)))"
proof (induction polls st arbitrary: k rule: main_loop.induct)
  case (1 st)
  then show ?case by simp
next
  case (2 rd field rest st)
  obtain r st' where t: "tick rd field st = (r, st')" by (cases "tick rd field st")
  show ?case
  proof (cases r)
    case (Inl e)
    with t 2(2) show ?thesis by simp
  next
    case (Inr cmds)
    show ?thesis
    proof (cases k)
      case 0
      with t Inr show ?thesis by simp
    next
      case (Suc j)
      with 2(2) t Inr have j: "j < length (main_loop rest st')" by simp
      have ih: "main_loop rest st' ! j =
        tick (fst (rest ! j)) (snd (rest ! j))
          (if j = 0 then st' else snd (main_loop rest st' ! (j - 1)))"
        using "2.IH" [OF t [symmetric] Inr j] .
      show ?thesis
      proof (cases j)
        case 0
        with ih Suc t Inr show ?thesis by simp
      next
        case (Suc i)
        with ih \<open>k = Suc j\<close> t Inr show ?thesis by simp
      qed
    qed
  qed
qed

lemma tick_not_game_on:
  "\<not> game_on rd \<Longrightarrow> tick rd field st = (Inr [(0, 0, 0), (1, 0, 0), (2, 0, 0)], st)"
  by (simp add: tick_def stop_def bots_range)

lemma sample_run:
  "main_loop [(\<lparr>foul = 6, game_on = True\<rparr>, Some sample_field),
              (\<lparr>foul = 7, game_on = False\<rparr>, Some sample_field)] None =
     [(Inr [(0, 30, 75 / 4), (1, 30, 20), (2, 30, 20)], Some (1 / 2)),
      (Inr [(0, 0, 0), (1, 0, 0), (2, 0, 0)], Some (1 / 2))]"
  by (simp add: tick_def sample_main_strategy sample_controller send_all_def stop_def
      bots_range)

section \<open>Claims about objective assignment and the main loop\<close>




text \<open>
  C6: on a pass of the main loop in which the referee does not report \<open>game_on\<close>, every
  robot \<open>0 .. NUM_BOTS - 1\<close> is sent \<open>(left = 0, right = 0)\<close>, whatever the field is and
  whatever the interrupt type is (HALT, which is \<open>7\<close>, or any other), and the state of the
  controller is left as it was: neither \<open>main_strategy\<close> nor \<open>controller\<close> runs. This holds
  of a single pass from any state, and of pass \<open>k\<close> of any run of the loop.
\<close>

theorem not_game_on_stops_all:
  "(\<not> game_on rd \<longrightarrow> tick rd field st = (Inr [(0, 0, 0), (1, 0, 0), (2, 0, 0)], st)) \<and>
   (k < length (main_loop polls st0) \<and> \<not> game_on (fst (polls ! k)) \<longrightarrow>
      main_loop polls st0 ! k =
        (Inr [(0, 0, 0), (1, 0, 0), (2, 0, 0)],
         if k = 0 then st0 else snd (main_loop polls st0 ! (k - 1)))) \<and>
   map fst [(0, 0, 0), (1, 0, 0), (2 :: nat, 0 :: real, 0 :: real)] = [0..<NUM_BOTS]"
  using tick_not_game_on [of rd field st] main_loop_nth [of k polls st0]
    tick_not_game_on [of "fst (polls ! k)" "snd (polls ! k)"
      "if k = 0 then st0 else snd (main_loop polls st0 ! (k - 1))"]
  by (simp add: bots_range)

text \<open>
  The claim at HALT (\<open>foul = 7\<close>) on the sample field, for a single pass and for the
  second pass of a run whose first pass was played with the game on.
\<close>

theorem not_game_on_stops_all_witness:
  "\<not> game_on \<lparr>foul = 7, game_on = False\<rparr> \<and>
   tick \<lparr>foul = 7, game_on = False\<rparr> (Some sample_field) (Some (1 / 2)) =
     (Inr [(0, 0, 0), (1, 0, 0), (2, 0, 0)], Some (1 / 2)) \<and>
   1 < length (main_loop [(\<lparr>foul = 6, game_on = True\<rparr>, Some sample_field),
                          (\<lparr>foul = 7, game_on = False\<rparr>, Some sample_field)] None) \<and>
   main_loop [(\<lparr>foul = 6, game_on = True\<rparr>, Some sample_field),
              (\<lparr>foul = 7, game_on = False\<rparr>, Some sample_field)] None ! 1 =
     (Inr [(0, 0, 0), (1, 0, 0), (2, 0, 0)], Some (1 / 2))"
proof -
  have h: "1 < length (main_loop [(\<lparr>foul = 6, game_on = True\<rparr>, Some sample_field),
                          (\<lparr>foul = 7, game_on = False\<rparr>, Some sample_field)] None) \<and>
      \<not> game_on (fst ([(\<lparr>foul = 6, game_on = True\<rparr>, Some sample_field),
              (\<lparr>foul = 7, game_on = False\<rparr>, Some sample_field)] ! 1))"
    unfolding sample_run by simp
  have g: "\<not> game_on \<lparr>foul = 7, game_on = False\<rparr>" by simp
  from h g not_game_on_stops_all [of "\<lparr>foul = 7, game_on = False\<rparr>" "Some sample_field"
      "Some (1 / 2)" 1
      "[(\<lparr>foul = 6, game_on = True\<rparr>, Some sample_field),
        (\<lparr>foul = 7, game_on = False\<rparr>, Some sample_field)]" None]
  show ?thesis unfolding sample_run by simp
qed

end
